theory Spec2Isabelle
  imports Complex_Main
begin

section \<open>Damage accumulation of \<open>damage_ocr.py\<close>\<close>

text \<open>
  The development embeds \<open>OCRProcessorApp.process_ocr\<close> of \<open>src/damage_ocr.py\<close>: the
  validation of the configuration, the frame loop, and the loop body that turns the two
  digit readings of a frame into a row of the worksheet.

  Python's \<open>float\<close> values are modelled by \<open>real\<close> (exact arithmetic), Python's \<open>int\<close>
  values read by OCR are natural numbers (\<open>\d+\<close> never matches a sign), frame numbers
  are integers. The OCR engine is a parameter \<open>ocr_image\<close> from image paths to texts.
  The two dictionaries from frame numbers to image paths are association lists that
  are looked up with \<open>map_of\<close>. What the source prints at its decisions is kept as a
  list of events per frame.

  Left out are the dialogs, the listing of the two folders that builds the dictionaries,
  the parsing of the three settings from their text fields, and the writing of the
  worksheet to a file: \<open>process_ocr\<close> starts from the dictionaries and the parsed settings
  and ends with the rows it has appended. Digits are the ASCII digits.
\<close>

subsection \<open>Reading a number from the OCR text\<close>

definition is_digit :: "char \<Rightarrow> bool" where
  "is_digit c = (48 \<le> (of_char c :: nat) \<and> (of_char c :: nat) \<le> 57)"

definition int_of_digits :: "string \<Rightarrow> nat" where
  "int_of_digits ds = foldl (\<lambda>n c. 10 * n + ((of_char c :: nat) - 48)) 0 ds"

text \<open>
  \<open>re.findall(r'\d+', text)\<close> followed by \<open>int(numbers[0])\<close>: the first maximal run of
  digits, and 0 when there is none.
\<close>

definition get_number_from_ocr_text :: "string \<Rightarrow> nat" where
  "get_number_from_ocr_text text =
     (let numbers0 = takeWhile is_digit (dropWhile (\<lambda>c. \<not> is_digit c) text)
      in if numbers0 \<noteq> [] then int_of_digits numbers0 else 0)"

subsection \<open>State, rows and events\<close>

record tracking =
  overall_accumulated_damage :: real
  last_successful_ocr_value_in_current_phase :: real
  reset_offset :: real
  last_valid_jo :: nat
  last_valid_uk :: nat
  previous_total_damage_for_diff :: real

definition initial_tracking :: tracking where
  "initial_tracking =
     \<lparr>overall_accumulated_damage = 0,
      last_successful_ocr_value_in_current_phase = 0,
      reset_offset = 0,
      last_valid_jo = 0,
      last_valid_uk = 0,
      previous_total_damage_for_diff = 0\<rparr>"

text \<open>One appended worksheet row (\<open>row_data\<close> of the source).\<close>

record row_data =
  row_frame :: int
  row_trillion :: nat
  row_hundred_million :: nat
  row_total :: real
  row_change :: real

text \<open>The decisions the source prints while it processes a frame.\<close>

datatype event =
    ResetDetected
  | MaintainedPrevious
  | UpdatedOverall
  | UpdatedPhaseValue
  | ImagesNotFound

definition RESET_DROP_FACTOR :: real where
  "RESET_DROP_FACTOR = 1 / 100"

definition SMALL_ABSOLUTE_RESET_THRESHOLD :: real where
  "SMALL_ABSOLUTE_RESET_THRESHOLD = 1 / 100000"

subsection \<open>The loop body\<close>

definition raw_damage :: "nat \<Rightarrow> nat \<Rightarrow> real" where
  "raw_damage trillion_val hundred_million_val =
     real trillion_val + real hundred_million_val / 10000"

text \<open>
  The branch of a frame with both images, after OCR. The result is the updated state,
  the two components and the total to log, and the printed decisions.
\<close>

definition present_frame ::
  "tracking \<Rightarrow> nat \<Rightarrow> nat \<Rightarrow> tracking \<times> (nat \<times> nat \<times> real) \<times> event list" where
  "present_frame st trillion_val hundred_million_val =
     (let raw_current_damage_from_ocr = raw_damage trillion_val hundred_million_val;
          is_reset_detected =
            (last_successful_ocr_value_in_current_phase st > 0 \<and>
             raw_current_damage_from_ocr
               < last_successful_ocr_value_in_current_phase st * RESET_DROP_FACTOR \<and>
             raw_current_damage_from_ocr < SMALL_ABSOLUTE_RESET_THRESHOLD);
          st1 = (if is_reset_detected
                 then st\<lparr>reset_offset := overall_accumulated_damage st,
                         last_successful_ocr_value_in_current_phase := 0\<rparr>
                 else st);
          out1 = (if is_reset_detected then [ResetDetected] else []);
          current_calculated_overall_damage = raw_current_damage_from_ocr + reset_offset st1
      in if current_calculated_overall_damage < overall_accumulated_damage st1 then
           (st1\<lparr>last_valid_jo := last_valid_jo st1, last_valid_uk := last_valid_uk st1\<rparr>,
            (last_valid_jo st1, last_valid_uk st1, overall_accumulated_damage st1),
            out1 @ [MaintainedPrevious])
         else
           (let st2 = st1\<lparr>overall_accumulated_damage := current_calculated_overall_damage\<rparr>;
                update_phase =
                  (raw_current_damage_from_ocr > 0 \<and>
                   (raw_current_damage_from_ocr
                      \<ge> last_successful_ocr_value_in_current_phase st2 \<or>
                    is_reset_detected));
                st3 = (if update_phase
                       then st2\<lparr>last_successful_ocr_value_in_current_phase :=
                                  raw_current_damage_from_ocr\<rparr>
                       else st2)
            in (st3\<lparr>last_valid_jo := trillion_val, last_valid_uk := hundred_million_val\<rparr>,
                (trillion_val, hundred_million_val, overall_accumulated_damage st3),
                out1 @ [UpdatedOverall] @ (if update_phase then [UpdatedPhaseValue] else []))))"

text \<open>The branch of a frame for which an image is missing.\<close>

definition missing_frame :: "tracking \<Rightarrow> tracking \<times> (nat \<times> nat \<times> real) \<times> event list" where
  "missing_frame st =
     (st, (last_valid_jo st, last_valid_uk st, overall_accumulated_damage st), [ImagesNotFound])"

text \<open>The change against the previously logged row.\<close>

definition damage_change_of :: "real \<Rightarrow> real \<Rightarrow> real" where
  "damage_change_of previous_total current_total =
     (if previous_total = 0 \<and> current_total > 0 then current_total
      else if current_total \<ge> previous_total then current_total - previous_total
      else 0)"

text \<open>
  Python's truth value of \<open>dict.get\<close>'s result: \<open>None\<close> and the empty string are false.
\<close>

definition truthy :: "string option \<Rightarrow> bool" where
  "truthy p = (case p of None \<Rightarrow> False | Some s \<Rightarrow> s \<noteq> [])"

text \<open>One iteration of the \<open>while\<close> loop: the frame's row, the new state, the events.\<close>

definition loop_body ::
  "(string \<Rightarrow> string) \<Rightarrow> (int \<times> string) list \<Rightarrow> (int \<times> string) list \<Rightarrow> int \<Rightarrow> tracking
     \<Rightarrow> tracking \<times> row_data \<times> event list" where
  "loop_body ocr_image trillion_map hundred_million_map current_frame_to_process st =
     (let trillion_img_path = map_of trillion_map current_frame_to_process;
          hundred_million_img_path = map_of hundred_million_map current_frame_to_process;
          (st', (trillion_val_for_excel, hundred_million_val_for_excel,
                 current_total_damage_to_log), out) =
            (if truthy trillion_img_path \<and> truthy hundred_million_img_path
             then present_frame st
                    (get_number_from_ocr_text (ocr_image (the trillion_img_path)))
                    (get_number_from_ocr_text (ocr_image (the hundred_million_img_path)))
             else missing_frame st);
          damage_change =
            damage_change_of (previous_total_damage_for_diff st') current_total_damage_to_log
      in (st'\<lparr>previous_total_damage_for_diff := current_total_damage_to_log\<rparr>,
          \<lparr>row_frame = current_frame_to_process,
           row_trillion = trillion_val_for_excel,
           row_hundred_million = hundred_million_val_for_excel,
           row_total = current_total_damage_to_log,
           row_change = damage_change\<rparr>,
          out))"

subsection \<open>The frame loop and \<open>process_ocr\<close>\<close>

text \<open>
  The \<open>while\<close> loop. It does not return when the interval is not positive, so its result
  is an option; \<open>ws\<close> are the rows appended so far and \<open>out\<close> the events printed so far.
\<close>

partial_function (option) frame_loop ::
  "(string \<Rightarrow> string) \<Rightarrow> (int \<times> string) list \<Rightarrow> (int \<times> string) list \<Rightarrow> int \<Rightarrow> int
     \<Rightarrow> int \<Rightarrow> tracking \<Rightarrow> row_data list \<Rightarrow> (int \<times> event list) list
     \<Rightarrow> (tracking \<times> row_data list \<times> (int \<times> event list) list) option" where
  "frame_loop ocr_image trillion_map hundred_million_map frame_interval max_frame_num
       current_frame_to_process st ws out =
     (if current_frame_to_process \<le> max_frame_num then
        (case loop_body ocr_image trillion_map hundred_million_map current_frame_to_process st of
           (st', row, evs) \<Rightarrow>
             frame_loop ocr_image trillion_map hundred_million_map frame_interval max_frame_num
               (current_frame_to_process + frame_interval) st' (ws @ [row])
               (out @ [(current_frame_to_process, evs)]))
      else Some (st, ws, out))"

declare frame_loop.simps [code]

datatype error = InputError | NoImages

definition all_frame_numbers :: "(int \<times> string) list \<Rightarrow> (int \<times> string) list \<Rightarrow> int list" where
  "all_frame_numbers trillion_map hundred_million_map =
     sort (remdups (map fst trillion_map @ map fst hundred_million_map))"

text \<open>
  \<open>process_ocr\<close> from the parsed settings on: the configuration is validated, an empty
  image set is reported, and otherwise the loop runs from the initial state.
\<close>

definition process_ocr ::
  "(string \<Rightarrow> string) \<Rightarrow> (int \<times> string) list \<Rightarrow> (int \<times> string) list \<Rightarrow> int \<Rightarrow> int \<Rightarrow> real
     \<Rightarrow> (error + tracking \<times> row_data list \<times> (int \<times> event list) list) option" where
  "process_ocr ocr_image trillion_map hundred_million_map start_frame frame_interval fps =
     (if start_frame < 0 \<or> frame_interval \<le> 0 \<or> fps \<le> 0 then Some (Inl InputError)
      else if all_frame_numbers trillion_map hundred_million_map = [] then Some (Inl NoImages)
      else map_option Inr
             (frame_loop ocr_image trillion_map hundred_million_map frame_interval
                (Max (set (all_frame_numbers trillion_map hundred_million_map)))
                start_frame initial_tracking [] []))"

subsection \<open>The run over a list of frame numbers\<close>

text \<open>The loop body folded over given frame numbers, from a given state.\<close>

fun run_frames ::
  "(string \<Rightarrow> string) \<Rightarrow> (int \<times> string) list \<Rightarrow> (int \<times> string) list \<Rightarrow> tracking \<Rightarrow> int list
     \<Rightarrow> tracking \<times> row_data list \<times> (int \<times> event list) list" where
  "run_frames ocr_image tm hm st [] = (st, [], [])"
| "run_frames ocr_image tm hm st (f # fs) =
     (case loop_body ocr_image tm hm f st of
        (st', row, evs) \<Rightarrow>
          (case run_frames ocr_image tm hm st' fs of
             (st'', rows, out) \<Rightarrow> (st'', row # rows, (f, evs) # out)))"

text \<open>The sampled frames: \<open>start\<close>, \<open>start + interval\<close>, ... up to \<open>max_frame_num\<close>.\<close>

definition sampled_frames :: "int \<Rightarrow> int \<Rightarrow> int \<Rightarrow> int list" where
  "sampled_frames start_frame frame_interval max_frame_num =
     map (\<lambda>k. start_frame + int k * frame_interval)
       [0 ..< nat ((max_frame_num - start_frame) div frame_interval + 1)]"

subsection \<open>What holds between two frames\<close>

text \<open>
  Between two iterations the previously logged total is the accumulated damage, and the
  offset of the earlier phases does not exceed it.
\<close>

definition tracking_ok :: "tracking \<Rightarrow> bool" where
  "tracking_ok st =
     (previous_total_damage_for_diff st = overall_accumulated_damage st \<and>
      reset_offset st \<le> overall_accumulated_damage st)"

subsection \<open>Example inputs\<close>

text \<open>
  In the examples the path of an image spells the digits the image shows, and the OCR
  engine reads them off.
\<close>

definition read_off :: "string \<Rightarrow> string" where
  "read_off path = path"

text \<open>Readings (0,0), (1,2000), (2,1500), (0,5), (3,1000) at frames 0, 24, 48, 72, 96.\<close>

definition scenario_trillion :: "(int \<times> string) list" where
  "scenario_trillion = [(0, ''0''), (24, ''1''), (48, ''2''), (72, ''0''), (96, ''3'')]"

definition scenario_hundred_million :: "(int \<times> string) list" where
  "scenario_hundred_million =
     [(0, ''0''), (24, ''2000''), (48, ''1500''), (72, ''5''), (96, ''1000'')]"

text \<open>Raw values 5.0, 5.2, 0.0001, 0.3 at frames 0, 1, 2, 3.\<close>

definition dip_trillion :: "(int \<times> string) list" where
  "dip_trillion = [(0, ''5''), (1, ''5''), (2, ''0''), (3, ''0'')]"

definition dip_hundred_million :: "(int \<times> string) list" where
  "dip_hundred_million = [(0, ''0''), (1, ''2000''), (2, ''1''), (3, ''3000'')]"

text \<open>Raw values 5.0, 5.2, 0, 0.3 at frames 0, 1, 2, 3.\<close>

definition zero_trillion :: "(int \<times> string) list" where
  "zero_trillion = [(0, ''5''), (1, ''5''), (2, ''0''), (3, ''0'')]"

definition zero_hundred_million :: "(int \<times> string) list" where
  "zero_hundred_million = [(0, ''0''), (1, ''2000''), (2, ''0''), (3, ''3000'')]"

text \<open>Frame 1 has the hundred-million image only.\<close>

definition gap_trillion :: "(int \<times> string) list" where
  "gap_trillion = [(0, ''1''), (2, ''3'')]"

definition gap_hundred_million :: "(int \<times> string) list" where
  "gap_hundred_million = [(0, ''0''), (1, ''5''), (2, ''0'')]"

text \<open>What the source computes for the concrete scenario.\<close>

definition scenario_final :: tracking where
  "scenario_final =
     \<lparr>overall_accumulated_damage = 31 / 10,
      last_successful_ocr_value_in_current_phase = 31 / 10,
      reset_offset = 0, last_valid_jo = 3, last_valid_uk = 1000,
      previous_total_damage_for_diff = 31 / 10\<rparr>"

definition scenario_rows :: "row_data list" where
  "scenario_rows =
     [\<lparr>row_frame = 0, row_trillion = 0, row_hundred_million = 0,
        row_total = 0, row_change = 0\<rparr>,
      \<lparr>row_frame = 24, row_trillion = 1, row_hundred_million = 2000,
        row_total = 6 / 5, row_change = 6 / 5\<rparr>,
      \<lparr>row_frame = 48, row_trillion = 2, row_hundred_million = 1500,
        row_total = 43 / 20, row_change = 19 / 20\<rparr>,
      \<lparr>row_frame = 72, row_trillion = 2, row_hundred_million = 1500,
        row_total = 43 / 20, row_change = 0\<rparr>,
      \<lparr>row_frame = 96, row_trillion = 3, row_hundred_million = 1000,
        row_total = 31 / 10, row_change = 19 / 20\<rparr>]"

definition scenario_events :: "(int \<times> event list) list" where
  "scenario_events =
     [(0, [UpdatedOverall]),
      (24, [UpdatedOverall, UpdatedPhaseValue]),
      (48, [UpdatedOverall, UpdatedPhaseValue]),
      (72, [MaintainedPrevious]),
      (96, [UpdatedOverall, UpdatedPhaseValue])]"

text \<open>What the source computes for the sequence with the dip to 0.0001.\<close>

definition dip_final :: tracking where
  "dip_final =
     \<lparr>overall_accumulated_damage = 26 / 5,
      last_successful_ocr_value_in_current_phase = 26 / 5,
      reset_offset = 0, last_valid_jo = 5, last_valid_uk = 2000,
      previous_total_damage_for_diff = 26 / 5\<rparr>"

definition dip_rows :: "row_data list" where
  "dip_rows =
     [\<lparr>row_frame = 0, row_trillion = 5, row_hundred_million = 0,
        row_total = 5, row_change = 5\<rparr>,
      \<lparr>row_frame = 1, row_trillion = 5, row_hundred_million = 2000,
        row_total = 26 / 5, row_change = 1 / 5\<rparr>,
      \<lparr>row_frame = 2, row_trillion = 5, row_hundred_million = 2000,
        row_total = 26 / 5, row_change = 0\<rparr>,
      \<lparr>row_frame = 3, row_trillion = 5, row_hundred_million = 2000,
        row_total = 26 / 5, row_change = 0\<rparr>]"

definition dip_events :: "(int \<times> event list) list" where
  "dip_events =
     [(0, [UpdatedOverall, UpdatedPhaseValue]),
      (1, [UpdatedOverall, UpdatedPhaseValue]),
      (2, [MaintainedPrevious]),
      (3, [MaintainedPrevious])]"

text \<open>What the source computes for the sequence with the drop to 0.\<close>

definition zero_final :: tracking where
  "zero_final =
     \<lparr>overall_accumulated_damage = 11 / 2,
      last_successful_ocr_value_in_current_phase = 3 / 10,
      reset_offset = 26 / 5, last_valid_jo = 0, last_valid_uk = 3000,
      previous_total_damage_for_diff = 11 / 2\<rparr>"

definition zero_rows :: "row_data list" where
  "zero_rows =
     [\<lparr>row_frame = 0, row_trillion = 5, row_hundred_million = 0,
        row_total = 5, row_change = 5\<rparr>,
      \<lparr>row_frame = 1, row_trillion = 5, row_hundred_million = 2000,
        row_total = 26 / 5, row_change = 1 / 5\<rparr>,
      \<lparr>row_frame = 2, row_trillion = 0, row_hundred_million = 0,
        row_total = 26 / 5, row_change = 0\<rparr>,
      \<lparr>row_frame = 3, row_trillion = 0, row_hundred_million = 3000,
        row_total = 11 / 2, row_change = 3 / 10\<rparr>]"

definition zero_events :: "(int \<times> event list) list" where
  "zero_events =
     [(0, [UpdatedOverall, UpdatedPhaseValue]),
      (1, [UpdatedOverall, UpdatedPhaseValue]),
      (2, [ResetDetected, UpdatedOverall]),
      (3, [UpdatedOverall, UpdatedPhaseValue])]"

text \<open>What the source computes for the run with an incomplete frame.\<close>

definition gap_final :: tracking where
  "gap_final =
     \<lparr>overall_accumulated_damage = 3,
      last_successful_ocr_value_in_current_phase = 3,
      reset_offset = 0, last_valid_jo = 3, last_valid_uk = 0,
      previous_total_damage_for_diff = 3\<rparr>"

definition gap_rows :: "row_data list" where
  "gap_rows =
     [\<lparr>row_frame = 0, row_trillion = 1, row_hundred_million = 0,
        row_total = 1, row_change = 1\<rparr>,
      \<lparr>row_frame = 1, row_trillion = 1, row_hundred_million = 0,
        row_total = 1, row_change = 0\<rparr>,
      \<lparr>row_frame = 2, row_trillion = 3, row_hundred_million = 0,
        row_total = 3, row_change = 2\<rparr>]"

definition gap_events :: "(int \<times> event list) list" where
  "gap_events =
     [(0, [UpdatedOverall, UpdatedPhaseValue]),
      (1, [ImagesNotFound]),
      (2, [UpdatedOverall, UpdatedPhaseValue])]"

text \<open>
  The state after the readings 5.0 and 5.2 from the initial state, and the state after a
  following reading of 0.
\<close>

definition after_peak :: tracking where
  "after_peak =
     \<lparr>overall_accumulated_damage = 26 / 5,
      last_successful_ocr_value_in_current_phase = 26 / 5,
      reset_offset = 0, last_valid_jo = 5, last_valid_uk = 2000,
      previous_total_damage_for_diff = 26 / 5\<rparr>"

definition after_reset :: tracking where
  "after_reset =
     \<lparr>overall_accumulated_damage = 26 / 5,
      last_successful_ocr_value_in_current_phase = 0,
      reset_offset = 26 / 5, last_valid_jo = 0, last_valid_uk = 0,
      previous_total_damage_for_diff = 26 / 5\<rparr>"

section \<open>Properties\<close>

subsection \<open>The loop is the fold over the sampled frames\<close>

lemma sampled_frames_empty:
  assumes "0 < iv" "mx < cur"
  shows "sampled_frames cur iv mx = []"
proof -
  have "(mx - cur) div iv < 0"
    using assms by (simp add: pos_imp_zdiv_neg_iff)
  then show ?thesis by (simp add: sampled_frames_def)
qed

lemma sampled_frames_step:
  assumes iv: "0 < iv" and le: "cur \<le> mx"
  shows "sampled_frames cur iv mx = cur # sampled_frames (cur + iv) iv mx"
proof -
  define n where "n = nat ((mx - (cur + iv)) div iv + 1)"
  have d: "(mx - cur) div iv = (mx - (cur + iv)) div iv + 1"
  proof -
    have e: "mx - cur = (mx - (cur + iv)) + iv" by simp
    have "(mx - cur) div iv = ((mx - (cur + iv)) + iv) div iv"
      by (subst e) (rule refl)
    also have "\<dots> = (mx - (cur + iv)) div iv + 1"
      using iv by (subst div_add_self2) simp_all
    finally show ?thesis .
  qed
  have nn: "0 \<le> (mx - cur) div iv"
    using iv le by (simp add: pos_imp_zdiv_nonneg_iff)
  then have "0 \<le> (mx - (cur + iv)) div iv + 1" using d by simp
  then have m: "nat ((mx - cur) div iv + 1) = Suc n"
    unfolding n_def using d by simp
  have "[0 ..< Suc n] = 0 # map Suc [0 ..< n]"
    by (simp add: upt_conv_Cons map_Suc_upt del: upt_Suc)
  then show ?thesis
    unfolding sampled_frames_def m n_def [symmetric]
    by (simp add: algebra_simps del: upt_Suc)
qed

lemma frame_loop_run_aux:
  assumes iv: "0 < iv"
  shows "nat (mx + 1 - cur) = k \<Longrightarrow>
         frame_loop ocr tm hm iv mx cur st ws out =
           (case run_frames ocr tm hm st (sampled_frames cur iv mx) of
              (st', rows, evs) \<Rightarrow> Some (st', ws @ rows, out @ evs))"
proof (induction k arbitrary: cur st ws out rule: less_induct)
  case (less k)
  show ?case
  proof (cases "cur \<le> mx")
    case False
    then have "sampled_frames cur iv mx = []"
      using iv by (simp add: sampled_frames_empty)
    with False show ?thesis
      by (subst frame_loop.simps) simp
  next
    case True
    obtain st1 row evs where b: "loop_body ocr tm hm cur st = (st1, row, evs)"
      by (cases "loop_body ocr tm hm cur st") auto
    have "nat (mx + 1 - (cur + iv)) < k"
      using True iv less.prems by simp
    then have ih: "frame_loop ocr tm hm iv mx (cur + iv) st1 (ws @ [row]) (out @ [(cur, evs)]) =
           (case run_frames ocr tm hm st1 (sampled_frames (cur + iv) iv mx) of
              (st', rows, evs') \<Rightarrow> Some (st', (ws @ [row]) @ rows, (out @ [(cur, evs)]) @ evs'))"
      using less.IH by blast
    have s: "sampled_frames cur iv mx = cur # sampled_frames (cur + iv) iv mx"
      using iv True by (rule sampled_frames_step)
    show ?thesis
      by (subst frame_loop.simps) (simp add: True b ih s split: prod.splits)
  qed
qed

lemma frame_loop_run:
  "0 < iv \<Longrightarrow>
     frame_loop ocr tm hm iv mx cur st ws out =
       (case run_frames ocr tm hm st (sampled_frames cur iv mx) of
          (st', rows, evs) \<Rightarrow> Some (st', ws @ rows, out @ evs))"
  using frame_loop_run_aux by blast

subsection \<open>One iteration\<close>

lemma raw_damage_nonneg: "0 \<le> raw_damage t h"
  by (simp add: raw_damage_def)

lemma raw_damage_small:
  assumes "raw_damage t h < SMALL_ABSOLUTE_RESET_THRESHOLD"
  shows "t = 0 \<and> h = 0"
proof -
  have a: "real t + real h / 10000 < 1 / 100000"
    using assms by (simp add: raw_damage_def SMALL_ABSOLUTE_RESET_THRESHOLD_def)
  have "real h / 10000 \<ge> 0" by simp
  with a have "real t < 1" by linarith
  then have t: "t = 0" by simp
  from a t have "real h < 1" by simp
  then have "h = 0" by simp
  with t show ?thesis by simp
qed

lemma damage_change_of_mono: "p \<le> c \<Longrightarrow> damage_change_of p c = c - p"
  by (simp add: damage_change_of_def)

lemma present_frame_basic:
  assumes "present_frame st t h = (st1, (jo, uk, tot), evs)"
  shows "overall_accumulated_damage st \<le> overall_accumulated_damage st1"
    and "tot = overall_accumulated_damage st1"
    and "previous_total_damage_for_diff st1 = previous_total_damage_for_diff st"
    and "jo = last_valid_jo st1"
    and "uk = last_valid_uk st1"
  using assms by (auto simp: present_frame_def Let_def split: if_splits)

lemma present_frame_offset:
  assumes "present_frame st t h = (st1, (jo, uk, tot), evs)"
    and "reset_offset st \<le> overall_accumulated_damage st"
  shows "reset_offset st1 \<le> overall_accumulated_damage st1"
  using assms raw_damage_nonneg [of t h]
  by (auto simp: present_frame_def Let_def split: if_splits)

lemma loop_body_missing:
  assumes "\<not> (truthy (map_of tm f) \<and> truthy (map_of hm f))"
  shows "loop_body ocr tm hm f st =
           (st\<lparr>previous_total_damage_for_diff := overall_accumulated_damage st\<rparr>,
            \<lparr>row_frame = f, row_trillion = last_valid_jo st,
             row_hundred_million = last_valid_uk st,
             row_total = overall_accumulated_damage st,
             row_change = damage_change_of (previous_total_damage_for_diff st)
                            (overall_accumulated_damage st)\<rparr>,
            [ImagesNotFound])"
  unfolding loop_body_def Let_def if_not_P [OF assms]
  by (simp add: missing_frame_def)

lemma loop_body_present:
  assumes "truthy (map_of tm f)" "truthy (map_of hm f)"
    and "present_frame st (get_number_from_ocr_text (ocr (the (map_of tm f))))
           (get_number_from_ocr_text (ocr (the (map_of hm f)))) = (st1, (jo, uk, tot), evs)"
  shows "loop_body ocr tm hm f st =
           (st1\<lparr>previous_total_damage_for_diff := tot\<rparr>,
            \<lparr>row_frame = f, row_trillion = jo, row_hundred_million = uk, row_total = tot,
             row_change = damage_change_of (previous_total_damage_for_diff st1) tot\<rparr>,
            evs)"
  using assms by (simp add: loop_body_def Let_def)

lemma loop_body_conj:
  assumes "loop_body ocr tm hm f st = (st', row, evs)"
  shows "overall_accumulated_damage st \<le> overall_accumulated_damage st' \<and>
      row_total row = overall_accumulated_damage st' \<and>
      previous_total_damage_for_diff st' = row_total row \<and>
      row_trillion row = last_valid_jo st' \<and>
      row_hundred_million row = last_valid_uk st' \<and>
      row_frame row = f \<and>
      row_change row = damage_change_of (previous_total_damage_for_diff st) (row_total row)"
proof (cases "truthy (map_of tm f) \<and> truthy (map_of hm f)")
  case False
  from loop_body_missing [OF False, of ocr st] assms
  show ?thesis by auto
next
  case True
  obtain st1 jo uk tot evs1 where
    p: "present_frame st (get_number_from_ocr_text (ocr (the (map_of tm f))))
         (get_number_from_ocr_text (ocr (the (map_of hm f)))) = (st1, (jo, uk, tot), evs1)"
    by (metis prod_cases3)
  from True have t1: "truthy (map_of tm f)" and t2: "truthy (map_of hm f)" by simp_all
  from loop_body_present [OF t1 t2 p] assms present_frame_basic [OF p]
  show ?thesis by auto
qed

lemma loop_body_basic:
  assumes "loop_body ocr tm hm f st = (st', row, evs)"
  shows "overall_accumulated_damage st \<le> overall_accumulated_damage st'"
    and "row_total row = overall_accumulated_damage st'"
    and "previous_total_damage_for_diff st' = row_total row"
    and "row_trillion row = last_valid_jo st'"
    and "row_hundred_million row = last_valid_uk st'"
    and "row_frame row = f"
    and "row_change row = damage_change_of (previous_total_damage_for_diff st) (row_total row)"
  using loop_body_conj [OF assms] by simp_all

lemma loop_body_offset:
  assumes "loop_body ocr tm hm f st = (st', row, evs)"
    and "reset_offset st \<le> overall_accumulated_damage st"
  shows "reset_offset st' \<le> overall_accumulated_damage st'"
proof (cases "truthy (map_of tm f) \<and> truthy (map_of hm f)")
  case False
  from loop_body_missing [OF False, of ocr st] assms show ?thesis by auto
next
  case True
  obtain st1 jo uk tot evs1 where
    p: "present_frame st (get_number_from_ocr_text (ocr (the (map_of tm f))))
         (get_number_from_ocr_text (ocr (the (map_of hm f)))) = (st1, (jo, uk, tot), evs1)"
    by (metis prod_cases3)
  from True have t1: "truthy (map_of tm f)" and t2: "truthy (map_of hm f)" by simp_all
  from loop_body_present [OF t1 t2 p] assms present_frame_offset [OF p]
  show ?thesis by auto
qed

lemma loop_body_ok:
  assumes "loop_body ocr tm hm f st = (st', row, evs)" and "tracking_ok st"
  shows "tracking_ok st'"
  using loop_body_basic(2,3) [OF assms(1)] loop_body_offset [OF assms(1)] assms(2)
  by (simp add: tracking_ok_def)

subsection \<open>The whole run\<close>

lemma run_frames_lengths:
  "run_frames ocr tm hm st fs = (stf, rows, out) \<Longrightarrow>
     length rows = length fs \<and> length out = length fs \<and>
     map row_frame rows = fs \<and> map fst out = fs"
proof (induction fs arbitrary: st stf rows out)
  case Nil
  then show ?case by simp
next
  case (Cons f fs)
  obtain st1 row evs where b: "loop_body ocr tm hm f st = (st1, row, evs)"
    by (metis prod_cases3)
  obtain st2 rows2 out2 where r: "run_frames ocr tm hm st1 fs = (st2, rows2, out2)"
    by (metis prod_cases3)
  from Cons.prems b r have e: "rows = row # rows2" "out = (f, evs) # out2" by simp_all
  from Cons.IH [OF r] loop_body_basic(6) [OF b] e show ?case by simp
qed

lemma run_frames_nth:
  "run_frames ocr tm hm st fs = (stf, rows, out) \<Longrightarrow> i < length fs \<Longrightarrow>
     \<exists>s s'. loop_body ocr tm hm (fs ! i) s = (s', rows ! i, snd (out ! i)) \<and>
       (tracking_ok st \<longrightarrow> tracking_ok s) \<and>
       overall_accumulated_damage s =
         (if i = 0 then overall_accumulated_damage st else row_total (rows ! (i - 1))) \<and>
       previous_total_damage_for_diff s =
         (if i = 0 then previous_total_damage_for_diff st else row_total (rows ! (i - 1))) \<and>
       last_valid_jo s = (if i = 0 then last_valid_jo st else row_trillion (rows ! (i - 1))) \<and>
       last_valid_uk s =
         (if i = 0 then last_valid_uk st else row_hundred_million (rows ! (i - 1)))"
proof (induction fs arbitrary: st stf rows out i)
  case Nil
  then show ?case by simp
next
  case (Cons f fs)
  obtain st1 row evs where b: "loop_body ocr tm hm f st = (st1, row, evs)"
    by (metis prod_cases3)
  obtain st2 rows2 out2 where r: "run_frames ocr tm hm st1 fs = (st2, rows2, out2)"
    by (metis prod_cases3)
  from Cons.prems(1) b r have e: "rows = row # rows2" "out = (f, evs) # out2" by simp_all
  show ?case
  proof (cases i)
    case 0
    with b e show ?thesis by auto
  next
    case (Suc k)
    with Cons.prems(2) have k: "k < length fs" by simp
    from Cons.IH [OF r k] obtain s s' where
      h: "loop_body ocr tm hm (fs ! k) s = (s', rows2 ! k, snd (out2 ! k))"
         "tracking_ok st1 \<longrightarrow> tracking_ok s"
         "overall_accumulated_damage s =
            (if k = 0 then overall_accumulated_damage st1 else row_total (rows2 ! (k - 1)))"
         "previous_total_damage_for_diff s =
            (if k = 0 then previous_total_damage_for_diff st1 else row_total (rows2 ! (k - 1)))"
         "last_valid_jo s = (if k = 0 then last_valid_jo st1 else row_trillion (rows2 ! (k - 1)))"
         "last_valid_uk s =
            (if k = 0 then last_valid_uk st1 else row_hundred_million (rows2 ! (k - 1)))"
      by blast
    have ok: "tracking_ok st \<longrightarrow> tracking_ok s"
      using h(2) loop_body_ok [OF b] by blast
    show ?thesis
    proof (cases k)
      case 0
      with h e Suc ok loop_body_basic [OF b] show ?thesis
        by (intro exI [of _ s] exI [of _ s']) simp
    next
      case (Suc j)
      with h e \<open>i = Suc k\<close> ok show ?thesis
        by (intro exI [of _ s] exI [of _ s']) simp
    qed
  qed
qed

lemma process_ocr_run:
  assumes "process_ocr ocr tm hm start iv fps = Some (Inr (stf, ws, out))"
  shows "0 \<le> start \<and> 0 < iv \<and> 0 < fps \<and> all_frame_numbers tm hm \<noteq> [] \<and>
         run_frames ocr tm hm initial_tracking
           (sampled_frames start iv (Max (set (all_frame_numbers tm hm)))) = (stf, ws, out)"
proof -
  have c: "\<not> (start < 0 \<or> iv \<le> 0 \<or> fps \<le> 0)" "all_frame_numbers tm hm \<noteq> []"
    using assms by (auto simp: process_ocr_def split: if_splits)
  then have iv: "0 < iv" by simp
  from assms c have "frame_loop ocr tm hm iv (Max (set (all_frame_numbers tm hm))) start
      initial_tracking [] [] = Some (stf, ws, out)"
    by (auto simp: process_ocr_def)
  then have "run_frames ocr tm hm initial_tracking
           (sampled_frames start iv (Max (set (all_frame_numbers tm hm)))) = (stf, ws, out)"
    unfolding frame_loop_run [OF iv] by (auto split: prod.splits)
  with c show ?thesis by simp
qed

lemma process_ocr_returns:
  assumes "0 \<le> start" "0 < iv" "0 < fps" "all_frame_numbers tm hm \<noteq> []"
  shows "process_ocr ocr tm hm start iv fps =
           Some (Inr (run_frames ocr tm hm initial_tracking
             (sampled_frames start iv (Max (set (all_frame_numbers tm hm))))))"
  using assms unfolding process_ocr_def frame_loop_run [OF assms(2)]
  by (auto split: prod.splits)

lemma initial_ok: "tracking_ok initial_tracking"
  by (simp add: tracking_ok_def initial_tracking_def)

subsection \<open>The example runs\<close>

lemma number_evals:
  "get_number_from_ocr_text ''0'' = 0"
  "get_number_from_ocr_text ''1'' = 1"
  "get_number_from_ocr_text ''2'' = 2"
  "get_number_from_ocr_text ''3'' = 3"
  "get_number_from_ocr_text ''5'' = 5"
  "get_number_from_ocr_text ''1000'' = 1000"
  "get_number_from_ocr_text ''1500'' = 1500"
  "get_number_from_ocr_text ''2000'' = 2000"
  "get_number_from_ocr_text ''3000'' = 3000"
  by (simp_all add: get_number_from_ocr_text_def is_digit_def int_of_digits_def)

lemma scenario_keys:
  "all_frame_numbers scenario_trillion scenario_hundred_million \<noteq> []"
  "Max (set (all_frame_numbers scenario_trillion scenario_hundred_million)) = 96"
  by (simp_all add: all_frame_numbers_def scenario_trillion_def scenario_hundred_million_def)

lemma scenario_frames: "sampled_frames 0 24 96 = [0, 24, 48, 72, 96]"
  by (simp add: sampled_frames_def upt_rec)

lemma scenario_run:
  "run_frames read_off scenario_trillion scenario_hundred_million initial_tracking [0, 24, 48, 72, 96] =
     (scenario_final, scenario_rows, scenario_events)"
  unfolding run_frames.simps
  by (simp add: loop_body_def present_frame_def missing_frame_def Let_def truthy_def
      read_off_def scenario_trillion_def scenario_hundred_million_def number_evals initial_tracking_def
      raw_damage_def RESET_DROP_FACTOR_def SMALL_ABSOLUTE_RESET_THRESHOLD_def
      damage_change_of_def scenario_final_def scenario_rows_def scenario_events_def)

lemma scenario_result:
  "process_ocr read_off scenario_trillion scenario_hundred_million 0 24 (596 / 25) =
     Some (Inr (scenario_final, scenario_rows, scenario_events))"
proof -
  have "process_ocr read_off scenario_trillion scenario_hundred_million 0 24 (596 / 25) =
      Some (Inr (run_frames read_off scenario_trillion scenario_hundred_million initial_tracking
        (sampled_frames 0 24 (Max (set (all_frame_numbers scenario_trillion scenario_hundred_million))))))"
    by (rule process_ocr_returns) (simp_all add: scenario_keys)
  then show ?thesis
    by (simp only: scenario_keys scenario_frames scenario_run)
qed

lemma dip_keys:
  "all_frame_numbers dip_trillion dip_hundred_million \<noteq> []"
  "Max (set (all_frame_numbers dip_trillion dip_hundred_million)) = 3"
  by (simp_all add: all_frame_numbers_def dip_trillion_def dip_hundred_million_def)

lemma dip_frames: "sampled_frames 0 1 3 = [0, 1, 2, 3]"
  by (simp add: sampled_frames_def upt_rec)

lemma dip_run:
  "run_frames read_off dip_trillion dip_hundred_million initial_tracking [0, 1, 2, 3] =
     (dip_final, dip_rows, dip_events)"
  unfolding run_frames.simps
  by (simp add: loop_body_def present_frame_def missing_frame_def Let_def truthy_def
      read_off_def dip_trillion_def dip_hundred_million_def number_evals initial_tracking_def
      raw_damage_def RESET_DROP_FACTOR_def SMALL_ABSOLUTE_RESET_THRESHOLD_def
      damage_change_of_def dip_final_def dip_rows_def dip_events_def)

lemma dip_result:
  "process_ocr read_off dip_trillion dip_hundred_million 0 1 (596 / 25) =
     Some (Inr (dip_final, dip_rows, dip_events))"
proof -
  have "process_ocr read_off dip_trillion dip_hundred_million 0 1 (596 / 25) =
      Some (Inr (run_frames read_off dip_trillion dip_hundred_million initial_tracking
        (sampled_frames 0 1 (Max (set (all_frame_numbers dip_trillion dip_hundred_million))))))"
    by (rule process_ocr_returns) (simp_all add: dip_keys)
  then show ?thesis
    by (simp only: dip_keys dip_frames dip_run)
qed

lemma zero_keys:
  "all_frame_numbers zero_trillion zero_hundred_million \<noteq> []"
  "Max (set (all_frame_numbers zero_trillion zero_hundred_million)) = 3"
  by (simp_all add: all_frame_numbers_def zero_trillion_def zero_hundred_million_def)

lemma zero_frames: "sampled_frames 0 1 3 = [0, 1, 2, 3]"
  by (simp add: sampled_frames_def upt_rec)

lemma zero_run:
  "run_frames read_off zero_trillion zero_hundred_million initial_tracking [0, 1, 2, 3] =
     (zero_final, zero_rows, zero_events)"
  unfolding run_frames.simps
  by (simp add: loop_body_def present_frame_def missing_frame_def Let_def truthy_def
      read_off_def zero_trillion_def zero_hundred_million_def number_evals initial_tracking_def
      raw_damage_def RESET_DROP_FACTOR_def SMALL_ABSOLUTE_RESET_THRESHOLD_def
      damage_change_of_def zero_final_def zero_rows_def zero_events_def)

lemma zero_result:
  "process_ocr read_off zero_trillion zero_hundred_million 0 1 (596 / 25) =
     Some (Inr (zero_final, zero_rows, zero_events))"
proof -
  have "process_ocr read_off zero_trillion zero_hundred_million 0 1 (596 / 25) =
      Some (Inr (run_frames read_off zero_trillion zero_hundred_million initial_tracking
        (sampled_frames 0 1 (Max (set (all_frame_numbers zero_trillion zero_hundred_million))))))"
    by (rule process_ocr_returns) (simp_all add: zero_keys)
  then show ?thesis
    by (simp only: zero_keys zero_frames zero_run)
qed

lemma gap_keys:
  "all_frame_numbers gap_trillion gap_hundred_million \<noteq> []"
  "Max (set (all_frame_numbers gap_trillion gap_hundred_million)) = 2"
  by (simp_all add: all_frame_numbers_def gap_trillion_def gap_hundred_million_def)

lemma gap_frames: "sampled_frames 0 1 2 = [0, 1, 2]"
  by (simp add: sampled_frames_def upt_rec)

lemma gap_run:
  "run_frames read_off gap_trillion gap_hundred_million initial_tracking [0, 1, 2] =
     (gap_final, gap_rows, gap_events)"
  unfolding run_frames.simps
  by (simp add: loop_body_def present_frame_def missing_frame_def Let_def truthy_def
      read_off_def gap_trillion_def gap_hundred_million_def number_evals initial_tracking_def
      raw_damage_def RESET_DROP_FACTOR_def SMALL_ABSOLUTE_RESET_THRESHOLD_def
      damage_change_of_def gap_final_def gap_rows_def gap_events_def)

lemma gap_result:
  "process_ocr read_off gap_trillion gap_hundred_million 0 1 (596 / 25) =
     Some (Inr (gap_final, gap_rows, gap_events))"
proof -
  have "process_ocr read_off gap_trillion gap_hundred_million 0 1 (596 / 25) =
      Some (Inr (run_frames read_off gap_trillion gap_hundred_million initial_tracking
        (sampled_frames 0 1 (Max (set (all_frame_numbers gap_trillion gap_hundred_million))))))"
    by (rule process_ocr_returns) (simp_all add: gap_keys)
  then show ?thesis
    by (simp only: gap_keys gap_frames gap_run)
qed

subsection \<open>The sampled frames\<close>

lemma int_le_div_iff:
  fixes a iv :: int
  assumes "0 < iv"
  shows "(int k \<le> a div iv) = (int k * iv \<le> a)"
proof
  assume "int k \<le> a div iv"
  then have "int k * iv \<le> (a div iv) * iv"
    using assms by (simp add: mult_right_mono)
  also have "\<dots> \<le> a"
  proof -
    have "0 \<le> a mod iv" using assms by simp
    moreover have "(a div iv) * iv + a mod iv = a" by simp
    ultimately show ?thesis by linarith
  qed
  finally show "int k * iv \<le> a" .
next
  assume "int k * iv \<le> a"
  then have "(int k * iv) div iv \<le> a div iv"
    using assms by (rule zdiv_mono1)
  moreover have "(int k * iv) div iv = int k"
    using assms by simp
  ultimately show "int k \<le> a div iv"
    by simp
qed


lemma sampled_frames_bound:
  assumes "0 < iv"
  shows "(k < nat ((mx - start) div iv + 1)) = (start + int k * iv \<le> mx)"
proof -
  have "(k < nat ((mx - start) div iv + 1)) = (int k \<le> (mx - start) div iv)"
    by (simp add: zless_nat_eq_int_zless)
  also have "\<dots> = (int k * iv \<le> mx - start)"
    by (rule int_le_div_iff [OF assms])
  also have "\<dots> = (start + int k * iv \<le> mx)"
    by (simp add: algebra_simps)
  finally show ?thesis .
qed


lemma sampled_frames_set:
  assumes "0 < iv"
  shows "set (sampled_frames start iv mx) = {f. \<exists>k::nat. f = start + int k * iv \<and> f \<le> mx}"
proof (rule set_eqI)
  fix f
  have "f \<in> set (sampled_frames start iv mx) =
      (\<exists>k. k < nat ((mx - start) div iv + 1) \<and> f = start + int k * iv)"
    unfolding sampled_frames_def by (simp add: image_iff Bex_def)
  also have "\<dots> = (\<exists>k. start + int k * iv \<le> mx \<and> f = start + int k * iv)"
    unfolding sampled_frames_bound [OF assms] ..
  also have "\<dots> = (\<exists>k::nat. f = start + int k * iv \<and> f \<le> mx)"
    by blast
  finally show "f \<in> set (sampled_frames start iv mx) =
      (f \<in> {f. \<exists>k::nat. f = start + int k * iv \<and> f \<le> mx})"
    by simp
qed

lemma sampled_frames_increasing:
  assumes "0 < iv"
  shows "sorted_wrt (<) (sampled_frames start iv mx)"
proof -
  have "sorted_wrt (\<lambda>i j. start + int i * iv < start + int j * iv) [0 ..< n]" for n
    using assms by (intro sorted_wrt_mono_rel [OF _ sorted_wrt_upt]) simp
  then show ?thesis
    by (simp add: sampled_frames_def sorted_wrt_map)
qed

lemma all_frame_numbers_set:
  "set (all_frame_numbers tm hm) = fst ` set tm \<union> fst ` set hm"
  by (simp add: all_frame_numbers_def)

subsection \<open>Reset detection in one iteration\<close>

lemma present_frame_flag:
  assumes "present_frame st t h = (st', res, evs)"
  shows "(ResetDetected \<in> set evs) =
           (last_successful_ocr_value_in_current_phase st > 0 \<and>
            raw_damage t h < last_successful_ocr_value_in_current_phase st * RESET_DROP_FACTOR \<and>
            raw_damage t h < SMALL_ABSOLUTE_RESET_THRESHOLD)"
  using assms by (auto simp: present_frame_def Let_def split: if_splits)

lemma present_frame_on_reset:
  assumes p: "present_frame st t h = (st', res, evs)" and r: "ResetDetected \<in> set evs"
  shows "st' = st\<lparr>reset_offset := overall_accumulated_damage st,
                   last_successful_ocr_value_in_current_phase := 0,
                   last_valid_jo := 0, last_valid_uk := 0\<rparr>"
    and "res = (0, 0, overall_accumulated_damage st)"
    and "evs = [ResetDetected, UpdatedOverall]"
proof -
  have c: "last_successful_ocr_value_in_current_phase st > 0"
      "raw_damage t h < last_successful_ocr_value_in_current_phase st * RESET_DROP_FACTOR"
      "raw_damage t h < SMALL_ABSOLUTE_RESET_THRESHOLD"
    using present_frame_flag [OF p] r by simp_all
  from raw_damage_small [OF c(3)] have z: "t = 0" "h = 0" by simp_all
  have raw: "raw_damage 0 0 = 0" by (simp add: raw_damage_def)
  from p c show "st' = st\<lparr>reset_offset := overall_accumulated_damage st,
                   last_successful_ocr_value_in_current_phase := 0,
                   last_valid_jo := 0, last_valid_uk := 0\<rparr>"
    and "res = (0, 0, overall_accumulated_damage st)"
    and "evs = [ResetDetected, UpdatedOverall]"
    unfolding z by (simp_all add: present_frame_def Let_def raw)
qed

lemma present_frame_no_reset:
  assumes p: "present_frame st t h = (st', res, evs)" and r: "ResetDetected \<notin> set evs"
  shows "reset_offset st' = reset_offset st"
    and "last_successful_ocr_value_in_current_phase st
           \<le> last_successful_ocr_value_in_current_phase st'"
proof -
  have c: "\<not> (last_successful_ocr_value_in_current_phase st > 0 \<and>
      raw_damage t h < last_successful_ocr_value_in_current_phase st * RESET_DROP_FACTOR \<and>
      raw_damage t h < SMALL_ABSOLUTE_RESET_THRESHOLD)"
    using present_frame_flag [OF p] r by simp
  from p show "reset_offset st' = reset_offset st"
    and "last_successful_ocr_value_in_current_phase st
           \<le> last_successful_ocr_value_in_current_phase st'"
    using c by (auto simp: present_frame_def Let_def split: if_splits)
qed

lemma present_frame_candidate:
  assumes "present_frame st t h = (st', res, evs)"
  shows "MaintainedPrevious \<in> set evs \<or>
         overall_accumulated_damage st' = raw_damage t h + reset_offset st'"
  using assms by (auto simp: present_frame_def Let_def split: if_splits)

lemma loop_body_events:
  assumes "loop_body ocr tm hm f st = (st', row, evs)"
  shows "(\<not> (truthy (map_of tm f) \<and> truthy (map_of hm f)) \<and> evs = [ImagesNotFound] \<and>
          reset_offset st' = reset_offset st \<and>
          overall_accumulated_damage st' = overall_accumulated_damage st) \<or>
         (truthy (map_of tm f) \<and> truthy (map_of hm f) \<and>
          (\<exists>st1 res.
             present_frame st (get_number_from_ocr_text (ocr (the (map_of tm f))))
               (get_number_from_ocr_text (ocr (the (map_of hm f)))) = (st1, res, evs) \<and>
             reset_offset st' = reset_offset st1 \<and>
             overall_accumulated_damage st' = overall_accumulated_damage st1))"
proof (cases "truthy (map_of tm f) \<and> truthy (map_of hm f)")
  case False
  from loop_body_missing [OF False, of ocr st] assms show ?thesis
    using False by auto
next
  case True
  obtain st1 jo uk tot evs1 where
    p: "present_frame st (get_number_from_ocr_text (ocr (the (map_of tm f))))
         (get_number_from_ocr_text (ocr (the (map_of hm f)))) = (st1, (jo, uk, tot), evs1)"
    by (metis prod_cases3)
  from True have t1: "truthy (map_of tm f)" and t2: "truthy (map_of hm f)" by simp_all
  from loop_body_present [OF t1 t2 p] assms
  have "st' = st1\<lparr>previous_total_damage_for_diff := tot\<rparr>" "evs = evs1" by simp_all
  with p True show ?thesis by auto
qed

subsection \<open>States reached by a run\<close>

lemma run_frames_ok:
  "run_frames ocr tm hm st fs = (st', rows, out) \<Longrightarrow> tracking_ok st \<Longrightarrow> tracking_ok st'"
proof (induction fs arbitrary: st st' rows out)
  case Nil
  then show ?case by simp
next
  case (Cons f fs)
  obtain st1 row evs where b: "loop_body ocr tm hm f st = (st1, row, evs)"
    by (metis prod_cases3)
  obtain st2 rows2 out2 where r: "run_frames ocr tm hm st1 fs = (st2, rows2, out2)"
    by (metis prod_cases3)
  from Cons.prems(1) b r have "st' = st2" by simp
  with Cons.IH [OF r loop_body_ok [OF b Cons.prems(2)]] show ?case by simp
qed

lemma run_frames_append:
  "run_frames ocr tm hm st (xs @ ys) =
     (case run_frames ocr tm hm st xs of
        (st1, rows1, out1) \<Rightarrow>
          (case run_frames ocr tm hm st1 ys of
             (st2, rows2, out2) \<Rightarrow> (st2, rows1 @ rows2, out1 @ out2)))"
  by (induction xs arbitrary: st) (simp_all split: prod.splits)

subsection \<open>Single steps of the examples\<close>

lemma after_peak_reset:
  "present_frame after_peak 0 0 = (after_reset, (0, 0, 26 / 5), [ResetDetected, UpdatedOverall])"
  by (simp add: present_frame_def Let_def after_peak_def after_reset_def raw_damage_def
      RESET_DROP_FACTOR_def SMALL_ABSOLUTE_RESET_THRESHOLD_def)

lemma after_peak_dip:
  "present_frame after_peak 0 1 = (after_peak, (5, 2000, 26 / 5), [MaintainedPrevious])"
  by (simp add: present_frame_def Let_def after_peak_def raw_damage_def
      RESET_DROP_FACTOR_def SMALL_ABSOLUTE_RESET_THRESHOLD_def)

lemma after_peak_rise:
  "present_frame after_peak 6 0 =
     (after_peak\<lparr>overall_accumulated_damage := 6,
        last_successful_ocr_value_in_current_phase := 6,
        last_valid_jo := 6, last_valid_uk := 0\<rparr>,
      (6, 0, 6), [UpdatedOverall, UpdatedPhaseValue])"
  by (simp add: present_frame_def Let_def after_peak_def raw_damage_def
      RESET_DROP_FACTOR_def SMALL_ABSOLUTE_RESET_THRESHOLD_def)

lemma zero_prefix_run:
  "run_frames read_off zero_trillion zero_hundred_million initial_tracking [0, 1] =
     (after_peak, take 2 zero_rows, take 2 zero_events)"
  unfolding run_frames.simps
  by (simp add: loop_body_def present_frame_def missing_frame_def Let_def truthy_def
      read_off_def zero_trillion_def zero_hundred_million_def number_evals initial_tracking_def
      raw_damage_def RESET_DROP_FACTOR_def SMALL_ABSOLUTE_RESET_THRESHOLD_def
      damage_change_of_def after_peak_def zero_rows_def zero_events_def)

lemma zero_reset_step:
  "loop_body read_off zero_trillion zero_hundred_million 2 after_peak =
     (after_reset, zero_rows ! 2, [ResetDetected, UpdatedOverall])"
  by (simp add: loop_body_def present_frame_def missing_frame_def Let_def truthy_def
      read_off_def zero_trillion_def zero_hundred_million_def number_evals
      raw_damage_def RESET_DROP_FACTOR_def SMALL_ABSOLUTE_RESET_THRESHOLD_def
      damage_change_of_def after_peak_def after_reset_def zero_rows_def)

section \<open>The claims\<close>

text \<open>
  Claim C1. Whatever the images, the OCR engine and the validated configuration are, the
  totals of the rows that \<open>process_ocr\<close> appends never decrease from one row to the
  next, and no iteration of the loop lowers the accumulated damage it carries.
\<close>

theorem total_accumulated_nondecreasing:
  assumes "process_ocr ocr tm hm start iv fps = Some (Inr (stf, ws, out))"
  shows "(\<forall>i. Suc i < length ws \<longrightarrow> row_total (ws ! i) \<le> row_total (ws ! Suc i)) \<and>
         (\<forall>st f. overall_accumulated_damage st
                   \<le> overall_accumulated_damage (fst (loop_body ocr tm hm f st)))"
proof -
  let ?fs = "sampled_frames start iv (Max (set (all_frame_numbers tm hm)))"
  have r: "run_frames ocr tm hm initial_tracking ?fs = (stf, ws, out)"
    using process_ocr_run [OF assms] by simp
  have len: "length ws = length ?fs"
    using run_frames_lengths [OF r] by simp
  have a: "row_total (ws ! i) \<le> row_total (ws ! Suc i)" if "Suc i < length ws" for i
  proof -
    from that len have "Suc i < length ?fs" by simp
    from run_frames_nth [OF r this] obtain s s' where
      b: "loop_body ocr tm hm (?fs ! Suc i) s = (s', ws ! Suc i, snd (out ! Suc i))"
      and o: "overall_accumulated_damage s = row_total (ws ! i)"
      by auto
    from loop_body_basic(1,2) [OF b] o show ?thesis by simp
  qed
  have b: "overall_accumulated_damage st
             \<le> overall_accumulated_damage (fst (loop_body ocr tm hm f st))" for st f
    using loop_body_basic(1) [of ocr tm hm f st] by (metis prod.collapse)
  from a b show ?thesis by blast
qed

theorem total_accumulated_nondecreasing_witness:
  "process_ocr read_off scenario_trillion scenario_hundred_million 0 24 (596 / 25) =
     Some (Inr (scenario_final, scenario_rows, scenario_events)) \<and>
   Suc 2 < length scenario_rows \<and>
   row_total (scenario_rows ! 2) \<le> row_total (scenario_rows ! Suc 2) \<and>
   overall_accumulated_damage initial_tracking
     \<le> overall_accumulated_damage
         (fst (loop_body read_off scenario_trillion scenario_hundred_million 0
                 initial_tracking))"
  using total_accumulated_nondecreasing [OF scenario_result] scenario_result
  by (simp add: scenario_rows_def)

text \<open>
  Claim C2. In the branch of a frame with both images (\<open>present_frame\<close>, which
  \<open>loop_body\<close> runs for such a frame) a reset is announced if and only if
  the phase value is positive, the raw value is below the phase value times 0.01 and the
  raw value is below 0.00001. When it is announced, the iteration ends with the offset
  equal to the accumulated damage it started with and with phase value 0; when it is not,
  the offset is unchanged and the phase value has not dropped.
\<close>

theorem reset_detection:
  assumes "present_frame st t h = (st', res, evs)"
  shows "((ResetDetected \<in> set evs) =
            (last_successful_ocr_value_in_current_phase st > 0 \<and>
             raw_damage t h < last_successful_ocr_value_in_current_phase st * (1 / 100) \<and>
             raw_damage t h < 1 / 100000)) \<and>
         (ResetDetected \<in> set evs \<longrightarrow>
            reset_offset st' = overall_accumulated_damage st \<and>
            last_successful_ocr_value_in_current_phase st' = 0) \<and>
         (ResetDetected \<notin> set evs \<longrightarrow>
            reset_offset st' = reset_offset st \<and>
            last_successful_ocr_value_in_current_phase st
              \<le> last_successful_ocr_value_in_current_phase st')"
proof -
  have a: "(ResetDetected \<in> set evs) =
            (last_successful_ocr_value_in_current_phase st > 0 \<and>
             raw_damage t h < last_successful_ocr_value_in_current_phase st * (1 / 100) \<and>
             raw_damage t h < 1 / 100000)"
    using present_frame_flag [OF assms]
    by (simp add: RESET_DROP_FACTOR_def SMALL_ABSOLUTE_RESET_THRESHOLD_def)
  have b: "reset_offset st' = overall_accumulated_damage st \<and>
           last_successful_ocr_value_in_current_phase st' = 0"
    if "ResetDetected \<in> set evs"
    using present_frame_on_reset(1) [OF assms that] by simp
  have c: "reset_offset st' = reset_offset st \<and>
           last_successful_ocr_value_in_current_phase st
             \<le> last_successful_ocr_value_in_current_phase st'"
    if "ResetDetected \<notin> set evs"
    using present_frame_no_reset [OF assms that] by simp
  from a b c show ?thesis by blast
qed

theorem reset_detection_witness:
  "present_frame after_peak 0 0 = (after_reset, (0, 0, 26 / 5), [ResetDetected, UpdatedOverall]) \<and>
   ResetDetected \<in> set [ResetDetected, UpdatedOverall] \<and>
   last_successful_ocr_value_in_current_phase after_peak > 0 \<and>
   raw_damage 0 0 < last_successful_ocr_value_in_current_phase after_peak * (1 / 100) \<and>
   raw_damage 0 0 < 1 / 100000 \<and>
   reset_offset after_reset = overall_accumulated_damage after_peak \<and>
   last_successful_ocr_value_in_current_phase after_reset = 0 \<and>
   present_frame after_peak 0 1 = (after_peak, (5, 2000, 26 / 5), [MaintainedPrevious]) \<and>
   ResetDetected \<notin> set [MaintainedPrevious] \<and>
   \<not> raw_damage 0 1 < 1 / 100000 \<and>
   reset_offset after_peak = reset_offset after_peak \<and>
   last_successful_ocr_value_in_current_phase after_peak
     \<le> last_successful_ocr_value_in_current_phase after_peak"
  using reset_detection [OF after_peak_reset] reset_detection [OF after_peak_dip]
    after_peak_reset after_peak_dip
  by (simp add: raw_damage_def)

text \<open>
  Claim C3. In the branch of a frame with both images, let the candidate be the raw value
  plus the offset as it is after reset detection. If the candidate is below the accumulated
  damage, the accumulated damage and the last logged components stay, and they are what
  is logged. Otherwise the accumulated damage becomes the candidate, which is logged with
  the current digit pair, the pair becomes the last logged components, and the phase value
  becomes the raw value exactly if the raw value is positive and either not below the
  previous phase value or a reset was announced in this iteration.
\<close>

theorem monotonic_rule:
  assumes "present_frame st t h = (st', (jo, uk, tot), evs)"
  shows "reset_offset st' =
           (if ResetDetected \<in> set evs then overall_accumulated_damage st
            else reset_offset st) \<and>
         (raw_damage t h + reset_offset st' < overall_accumulated_damage st \<longrightarrow>
            overall_accumulated_damage st' = overall_accumulated_damage st \<and>
            tot = overall_accumulated_damage st \<and>
            jo = last_valid_jo st \<and> uk = last_valid_uk st \<and>
            last_valid_jo st' = last_valid_jo st \<and> last_valid_uk st' = last_valid_uk st \<and>
            last_successful_ocr_value_in_current_phase st' =
              last_successful_ocr_value_in_current_phase st \<and>
            MaintainedPrevious \<in> set evs) \<and>
         (\<not> raw_damage t h + reset_offset st' < overall_accumulated_damage st \<longrightarrow>
            overall_accumulated_damage st' = raw_damage t h + reset_offset st' \<and>
            tot = raw_damage t h + reset_offset st' \<and>
            jo = t \<and> uk = h \<and>
            last_valid_jo st' = t \<and> last_valid_uk st' = h \<and>
            last_successful_ocr_value_in_current_phase st' =
              (if 0 < raw_damage t h \<and>
                  (last_successful_ocr_value_in_current_phase st \<le> raw_damage t h \<or>
                   ResetDetected \<in> set evs)
               then raw_damage t h
               else if ResetDetected \<in> set evs then 0
               else last_successful_ocr_value_in_current_phase st) \<and>
            MaintainedPrevious \<notin> set evs)"
proof (cases "ResetDetected \<in> set evs")
  case True
  from raw_damage_small [of t h] present_frame_flag [OF assms] True
  have z: "t = 0" "h = 0" by simp_all
  have raw: "raw_damage 0 0 = 0" by (simp add: raw_damage_def)
  from present_frame_on_reset [OF assms True] True show ?thesis
    unfolding z by (simp add: raw)
next
  case False
  have c: "\<not> (last_successful_ocr_value_in_current_phase st > 0 \<and>
      raw_damage t h < last_successful_ocr_value_in_current_phase st * RESET_DROP_FACTOR \<and>
      raw_damage t h < SMALL_ABSOLUTE_RESET_THRESHOLD)"
    using present_frame_flag [OF assms] False by simp
  from assms False c show ?thesis
    by (auto simp: present_frame_def Let_def split: if_splits)
qed

theorem monotonic_rule_witness:
  "present_frame after_peak 0 1 = (after_peak, (5, 2000, 26 / 5), [MaintainedPrevious]) \<and>
   raw_damage 0 1 + reset_offset after_peak < overall_accumulated_damage after_peak \<and>
   overall_accumulated_damage after_peak = overall_accumulated_damage after_peak \<and>
   (26 / 5 :: real) = overall_accumulated_damage after_peak \<and>
   (5::nat) = last_valid_jo after_peak \<and> (2000::nat) = last_valid_uk after_peak \<and>
   MaintainedPrevious \<in> set [MaintainedPrevious] \<and>
   present_frame after_peak 6 0 =
     (after_peak\<lparr>overall_accumulated_damage := 6,
        last_successful_ocr_value_in_current_phase := 6,
        last_valid_jo := 6, last_valid_uk := 0\<rparr>,
      (6, 0, 6), [UpdatedOverall, UpdatedPhaseValue]) \<and>
   \<not> raw_damage 6 0 + reset_offset after_peak < overall_accumulated_damage after_peak \<and>
   (6::real) = raw_damage 6 0 + reset_offset after_peak \<and>
   0 < raw_damage 6 0 \<and>
   last_successful_ocr_value_in_current_phase after_peak \<le> raw_damage 6 0"
  using monotonic_rule [OF after_peak_dip] monotonic_rule [OF after_peak_rise]
    after_peak_dip after_peak_rise
  by (simp add: raw_damage_def after_peak_def)

text \<open>
  Claim C4. The first row with a nonzero total has that total as its change; every later
  row has as its change the difference of its total and the total of the row before,
  which is never negative, so the clamp to 0 is never the case taken; and every iteration
  leaves the total it logged in \<open>previous_total_damage_for_diff\<close>.
\<close>

theorem damage_change_is_difference:
  assumes "process_ocr ocr tm hm start iv fps = Some (Inr (stf, ws, out))"
  shows "(\<forall>i < length ws. (\<forall>j < i. row_total (ws ! j) = 0) \<and> row_total (ws ! i) \<noteq> 0 \<longrightarrow>
            row_change (ws ! i) = row_total (ws ! i)) \<and>
         (\<forall>i < length ws. 0 < i \<longrightarrow>
            row_total (ws ! (i - 1)) \<le> row_total (ws ! i) \<and>
            row_change (ws ! i) = row_total (ws ! i) - row_total (ws ! (i - 1))) \<and>
         (\<forall>st f. previous_total_damage_for_diff (fst (loop_body ocr tm hm f st))
                   = row_total (fst (snd (loop_body ocr tm hm f st))))"
proof -
  let ?fs = "sampled_frames start iv (Max (set (all_frame_numbers tm hm)))"
  have r: "run_frames ocr tm hm initial_tracking ?fs = (stf, ws, out)"
    using process_ocr_run [OF assms] by simp
  have len: "length ws = length ?fs"
    using run_frames_lengths [OF r] by simp
  have key: "(if i = 0 then 0 else row_total (ws ! (i - 1))) \<le> row_total (ws ! i) \<and>
             row_change (ws ! i) =
               row_total (ws ! i) - (if i = 0 then 0 else row_total (ws ! (i - 1)))"
    if "i < length ws" for i
  proof -
    from that len have "i < length ?fs" by simp
    from run_frames_nth [OF r this] obtain s s' where
      b: "loop_body ocr tm hm (?fs ! i) s = (s', ws ! i, snd (out ! i))"
      and o: "overall_accumulated_damage s =
                (if i = 0 then overall_accumulated_damage initial_tracking
                 else row_total (ws ! (i - 1)))"
      and p: "previous_total_damage_for_diff s =
                (if i = 0 then previous_total_damage_for_diff initial_tracking
                 else row_total (ws ! (i - 1)))"
      by auto
    have le: "previous_total_damage_for_diff s \<le> row_total (ws ! i)"
      using loop_body_basic(1,2) [OF b] o p
      by (cases "i = 0") (simp_all add: initial_tracking_def)
    have "row_change (ws ! i) = row_total (ws ! i) - previous_total_damage_for_diff s"
      using loop_body_basic(7) [OF b] damage_change_of_mono [OF le] by simp
    with le p show ?thesis by (cases "i = 0") (simp_all add: initial_tracking_def)
  qed
  have a: "row_change (ws ! i) = row_total (ws ! i)"
    if "i < length ws" "\<forall>j < i. row_total (ws ! j) = 0" for i
  proof (cases i)
    case 0
    with key [OF that(1)] show ?thesis by simp
  next
    case (Suc k)
    with that(2) have "row_total (ws ! (i - 1)) = 0" by simp
    with key [OF that(1)] Suc show ?thesis by simp
  qed
  have b: "row_total (ws ! (i - 1)) \<le> row_total (ws ! i) \<and>
           row_change (ws ! i) = row_total (ws ! i) - row_total (ws ! (i - 1))"
    if "i < length ws" "0 < i" for i
    using key [OF that(1)] that(2) by simp
  have c: "previous_total_damage_for_diff (fst (loop_body ocr tm hm f st))
             = row_total (fst (snd (loop_body ocr tm hm f st)))" for st f
    using loop_body_basic(3) [of ocr tm hm f st] by (metis prod.collapse)
  from a b c show ?thesis by blast
qed

theorem damage_change_is_difference_witness:
  "process_ocr read_off scenario_trillion scenario_hundred_million 0 24 (596 / 25) =
     Some (Inr (scenario_final, scenario_rows, scenario_events)) \<and>
   row_total (scenario_rows ! 0) = 0 \<and> row_total (scenario_rows ! 1) \<noteq> 0 \<and>
   row_change (scenario_rows ! 1) = row_total (scenario_rows ! 1) \<and>
   (4::nat) < length scenario_rows \<and> (0::nat) < 4 \<and>
   row_total (scenario_rows ! (4 - 1)) \<le> row_total (scenario_rows ! 4) \<and>
   row_change (scenario_rows ! 4) =
     row_total (scenario_rows ! 4) - row_total (scenario_rows ! (4 - 1)) \<and>
   previous_total_damage_for_diff
       (fst (loop_body read_off scenario_trillion scenario_hundred_million 0
               initial_tracking)) =
     row_total (fst (snd (loop_body read_off scenario_trillion scenario_hundred_million 0
               initial_tracking)))"
  using damage_change_is_difference [OF scenario_result] scenario_result
  by (simp add: scenario_rows_def)

text \<open>
  Claim C5, as the source has it. For the raw values 5.0, 5.2, 0.0001, 0.3 no reset is
  announced at 0.0001, which is not below 0.00001: that frame and the next are rejected and
  the accumulated damage stays 5.2. For the raw values 5.0, 5.2, 0, 0.3 a reset is
  announced at 0, the offset is the total logged at 5.2, and the accumulated damage after
  the 0.3 frame is that offset plus 0.3.
\<close>

theorem reset_sequence:
  "process_ocr read_off dip_trillion dip_hundred_million 0 1 (596 / 25) =
     Some (Inr (dip_final, dip_rows, dip_events)) \<and>
   raw_damage 0 1 = 1 / 10000 \<and> \<not> raw_damage 0 1 < SMALL_ABSOLUTE_RESET_THRESHOLD \<and>
   snd (dip_events ! 2) = [MaintainedPrevious] \<and>
   snd (dip_events ! 3) = [MaintainedPrevious] \<and>
   map row_total dip_rows = [5, 26 / 5, 26 / 5, 26 / 5] \<and>
   overall_accumulated_damage dip_final = 26 / 5 \<and>
   process_ocr read_off zero_trillion zero_hundred_million 0 1 (596 / 25) =
     Some (Inr (zero_final, zero_rows, zero_events)) \<and>
   raw_damage 5 0 = 5 \<and> raw_damage 5 2000 = 26 / 5 \<and>
   raw_damage 0 0 = 0 \<and> raw_damage 0 3000 = 3 / 10 \<and>
   snd (zero_events ! 2) = [ResetDetected, UpdatedOverall] \<and>
   reset_offset zero_final = row_total (zero_rows ! 1) \<and>
   row_total (zero_rows ! 1) = 26 / 5 \<and>
   overall_accumulated_damage zero_final = reset_offset zero_final + 3 / 10"
  using dip_result zero_result
  by (simp add: raw_damage_def SMALL_ABSOLUTE_RESET_THRESHOLD_def dip_events_def dip_rows_def
      dip_final_def zero_events_def zero_rows_def zero_final_def)

text \<open>
  Claim C5 as stated fails: for the raw values 5.0, 5.2, 0.0001, 0.3 the frame reading
  0.0001 announces no reset, and the accumulated damage at the end is not the total logged
  at 5.2 plus 0.3.
\<close>

theorem reset_sequence_counterexample:
  "process_ocr read_off dip_trillion dip_hundred_million 0 1 (596 / 25) =
     Some (Inr (dip_final, dip_rows, dip_events)) \<and>
   raw_damage 5 0 = 5 \<and> raw_damage 5 2000 = 26 / 5 \<and>
   raw_damage 0 1 = 1 / 10000 \<and> raw_damage 0 3000 = 3 / 10 \<and>
   ResetDetected \<notin> set (snd (dip_events ! 2)) \<and>
   overall_accumulated_damage dip_final \<noteq> row_total (dip_rows ! 1) + 3 / 10"
  using dip_result
  by (simp add: raw_damage_def dip_events_def dip_rows_def dip_final_def)

text \<open>
  Claim C6, as the source has it. The readings (0,0), (1,2000), (2,1500), (0,5), (3,1000)
  at frames 0, 24, 48, 72, 96 give the totals 0, 1.2, 2.15, 2.15, 3.1; the fourth frame is
  a rejected dip, and no reset is announced, 0.0005 being not below 0.00001.
\<close>

theorem concrete_scenario:
  "process_ocr read_off scenario_trillion scenario_hundred_million 0 24 (596 / 25) =
     Some (Inr (scenario_final, scenario_rows, scenario_events)) \<and>
   map row_frame scenario_rows = [0, 24, 48, 72, 96] \<and>
   map row_total scenario_rows = [0, 6 / 5, 43 / 20, 43 / 20, 31 / 10] \<and>
   raw_damage 3 1000 = 31 / 10 \<and>
   snd (scenario_events ! 3) = [MaintainedPrevious] \<and>
   ResetDetected \<notin> set (concat (map snd scenario_events)) \<and>
   raw_damage 0 5 = 1 / 2000 \<and> \<not> raw_damage 0 5 < SMALL_ABSOLUTE_RESET_THRESHOLD"
  using scenario_result
  by (simp add: raw_damage_def SMALL_ABSOLUTE_RESET_THRESHOLD_def scenario_rows_def
      scenario_events_def)

text \<open>
  Claim C6 as stated fails: the totals of the scenario are not 0, 1.2, 2.15, 2.15, 3.25.
\<close>

theorem concrete_scenario_counterexample:
  "process_ocr read_off scenario_trillion scenario_hundred_million 0 24 (596 / 25) =
     Some (Inr (scenario_final, scenario_rows, scenario_events)) \<and>
   map row_total scenario_rows \<noteq> [0, 6 / 5, 43 / 20, 43 / 20, 13 / 4]"
  using scenario_result
  by (simp add: scenario_rows_def)

text \<open>
  Claim C7. A frame without both images gets a row with the total and the two components
  of the row before it (0 for the first row) and with change 0, and its iteration
  changes no field of the state other than \<open>previous_total_damage_for_diff\<close>.
\<close>

theorem missing_frame_passthrough:
  assumes "process_ocr ocr tm hm start iv fps = Some (Inr (stf, ws, out))"
    and "i < length ws"
    and "\<not> (truthy (map_of tm (row_frame (ws ! i))) \<and> truthy (map_of hm (row_frame (ws ! i))))"
  shows "row_total (ws ! i) = (if i = 0 then 0 else row_total (ws ! (i - 1))) \<and>
         row_trillion (ws ! i) = (if i = 0 then 0 else row_trillion (ws ! (i - 1))) \<and>
         row_hundred_million (ws ! i) =
           (if i = 0 then 0 else row_hundred_million (ws ! (i - 1))) \<and>
         row_change (ws ! i) = 0 \<and>
         snd (out ! i) = [ImagesNotFound] \<and>
         (\<forall>st. fst (loop_body ocr tm hm (row_frame (ws ! i)) st) =
                 st\<lparr>previous_total_damage_for_diff := overall_accumulated_damage st\<rparr>)"
proof -
  let ?fs = "sampled_frames start iv (Max (set (all_frame_numbers tm hm)))"
  have r: "run_frames ocr tm hm initial_tracking ?fs = (stf, ws, out)"
    using process_ocr_run [OF assms(1)] by simp
  have len: "length ws = length ?fs" and fr: "map row_frame ws = ?fs"
    using run_frames_lengths [OF r] by simp_all
  from assms(2) len have i: "i < length ?fs" by simp
  have f: "?fs ! i = row_frame (ws ! i)"
    using fr assms(2) by (metis nth_map)
  from run_frames_nth [OF r i] obtain s s' where
    b: "loop_body ocr tm hm (?fs ! i) s = (s', ws ! i, snd (out ! i))"
    and ok: "tracking_ok s"
    and o: "overall_accumulated_damage s =
              (if i = 0 then overall_accumulated_damage initial_tracking
               else row_total (ws ! (i - 1)))"
    and j: "last_valid_jo s =
              (if i = 0 then last_valid_jo initial_tracking else row_trillion (ws ! (i - 1)))"
    and u: "last_valid_uk s =
              (if i = 0 then last_valid_uk initial_tracking
               else row_hundred_million (ws ! (i - 1)))"
    using initial_ok by auto
  have m: "loop_body ocr tm hm (row_frame (ws ! i)) st =
           (st\<lparr>previous_total_damage_for_diff := overall_accumulated_damage st\<rparr>,
            \<lparr>row_frame = row_frame (ws ! i), row_trillion = last_valid_jo st,
             row_hundred_million = last_valid_uk st,
             row_total = overall_accumulated_damage st,
             row_change = damage_change_of (previous_total_damage_for_diff st)
                            (overall_accumulated_damage st)\<rparr>,
            [ImagesNotFound])" for st
    by (rule loop_body_missing [OF assms(3)])
  from b f m [of s] have row: "ws ! i =
            \<lparr>row_frame = row_frame (ws ! i), row_trillion = last_valid_jo s,
             row_hundred_million = last_valid_uk s,
             row_total = overall_accumulated_damage s,
             row_change = damage_change_of (previous_total_damage_for_diff s)
                            (overall_accumulated_damage s)\<rparr>"
    and ev: "snd (out ! i) = [ImagesNotFound]"
    by simp_all
  have ch: "damage_change_of (previous_total_damage_for_diff s)
              (overall_accumulated_damage s) = 0"
    using ok by (simp add: tracking_ok_def damage_change_of_def)
  have t: "row_total (ws ! i) = overall_accumulated_damage s"
    and t1: "row_trillion (ws ! i) = last_valid_jo s"
    and t2: "row_hundred_million (ws ! i) = last_valid_uk s"
    and t3: "row_change (ws ! i) = 0"
    using ch by (subst row, simp)+
  from t t1 t2 t3 o j u ev m show ?thesis
    by (cases "i = 0") (simp_all add: initial_tracking_def)
qed

theorem missing_frame_passthrough_witness:
  "process_ocr read_off gap_trillion gap_hundred_million 0 1 (596 / 25) =
     Some (Inr (gap_final, gap_rows, gap_events)) \<and>
   (1::nat) < length gap_rows \<and>
   \<not> (truthy (map_of gap_trillion (row_frame (gap_rows ! 1))) \<and>
      truthy (map_of gap_hundred_million (row_frame (gap_rows ! 1)))) \<and>
   row_total (gap_rows ! 1) = row_total (gap_rows ! (1 - 1)) \<and>
   row_trillion (gap_rows ! 1) = row_trillion (gap_rows ! (1 - 1)) \<and>
   row_hundred_million (gap_rows ! 1) = row_hundred_million (gap_rows ! (1 - 1)) \<and>
   row_change (gap_rows ! 1) = 0 \<and>
   snd (gap_events ! 1) = [ImagesNotFound] \<and>
   fst (loop_body read_off gap_trillion gap_hundred_million (row_frame (gap_rows ! 1))
          initial_tracking) =
     initial_tracking\<lparr>previous_total_damage_for_diff :=
       overall_accumulated_damage initial_tracking\<rparr>"
proof -
  have a: "(1::nat) < length gap_rows"
    by (simp add: gap_rows_def)
  have b: "\<not> (truthy (map_of gap_trillion (row_frame (gap_rows ! 1))) \<and>
      truthy (map_of gap_hundred_million (row_frame (gap_rows ! 1))))"
    by (simp add: gap_rows_def gap_trillion_def truthy_def)
  from missing_frame_passthrough [OF gap_result a b] gap_result a b show ?thesis
    by simp
qed

text \<open>
  Claim C8. With a validated configuration and at least one image, \<open>process_ocr\<close> returns,
  and the frame numbers of its rows are \<open>start_frame\<close>, \<open>start_frame + frame_interval\<close>,
  and so on: strictly increasing, one row for each such number that does not exceed the
  largest frame number of the two image sets, and no other row.
\<close>

theorem one_row_per_sampled_frame:
  assumes "0 \<le> start" "0 < iv" "0 < fps" "fst ` set tm \<union> fst ` set hm \<noteq> {}"
  shows "\<exists>stf ws out.
           process_ocr ocr tm hm start iv fps = Some (Inr (stf, ws, out)) \<and>
           map row_frame ws = sampled_frames start iv (Max (fst ` set tm \<union> fst ` set hm)) \<and>
           sorted_wrt (<) (map row_frame ws) \<and>
           set (map row_frame ws) =
             {f. \<exists>k::nat. f = start + int k * iv \<and> f \<le> Max (fst ` set tm \<union> fst ` set hm)}"
proof -
  let ?mx = "Max (fst ` set tm \<union> fst ` set hm)"
  have ne: "all_frame_numbers tm hm \<noteq> []"
    using assms(4) all_frame_numbers_set [of tm hm] by auto
  obtain stf ws out where
    r: "run_frames ocr tm hm initial_tracking (sampled_frames start iv ?mx) = (stf, ws, out)"
    by (metis prod_cases3)
  have "process_ocr ocr tm hm start iv fps =
      Some (Inr (run_frames ocr tm hm initial_tracking
        (sampled_frames start iv (Max (set (all_frame_numbers tm hm))))))"
    using assms(1-3) ne by (rule process_ocr_returns)
  then have p: "process_ocr ocr tm hm start iv fps = Some (Inr (stf, ws, out))"
    unfolding all_frame_numbers_set r .
  have m: "map row_frame ws = sampled_frames start iv ?mx"
    using run_frames_lengths [OF r] by simp
  have s: "sorted_wrt (<) (map row_frame ws)"
    unfolding m using assms(2) by (rule sampled_frames_increasing)
  have e: "set (map row_frame ws) = {f. \<exists>k::nat. f = start + int k * iv \<and> f \<le> ?mx}"
    unfolding m using assms(2) by (rule sampled_frames_set)
  from p m s e show ?thesis by blast
qed

theorem one_row_per_sampled_frame_witness:
  "(0::int) \<le> 0 \<and> (0::int) < 24 \<and> (0::real) < 596 / 25 \<and>
   fst ` set scenario_trillion \<union> fst ` set scenario_hundred_million \<noteq> {} \<and>
   process_ocr read_off scenario_trillion scenario_hundred_million 0 24 (596 / 25) =
     Some (Inr (scenario_final, scenario_rows, scenario_events)) \<and>
   map row_frame scenario_rows = [0, 24, 48, 72, 96] \<and>
   sampled_frames 0 24 (Max (fst ` set scenario_trillion \<union> fst ` set scenario_hundred_million))
     = [0, 24, 48, 72, 96]"
proof -
  have a: "(0::int) \<le> 0" "(0::int) < 24" "(0::real) < 596 / 25"
    "fst ` set scenario_trillion \<union> fst ` set scenario_hundred_million \<noteq> {}"
    by (simp_all add: scenario_trillion_def)
  have m: "Max (fst ` set scenario_trillion \<union> fst ` set scenario_hundred_million) = 96"
    by (simp add: scenario_trillion_def scenario_hundred_million_def)
  from one_row_per_sampled_frame [OF a, of read_off] scenario_result a show ?thesis
    unfolding m scenario_frames by (simp add: scenario_rows_def)
qed

text \<open>
  Claim C9. A frame for which exactly one of the two images exists is processed like a
  frame with no image at all: no OCR result is used, the accumulated damage is logged
  unchanged and the last logged components are reused.
\<close>

theorem single_image_frame_is_missing:
  assumes "(map_of tm f = None) \<noteq> (map_of hm f = None)"
  shows "loop_body ocr tm hm f st = loop_body ocr' [] [] f st \<and>
         loop_body ocr tm hm f st =
           (st\<lparr>previous_total_damage_for_diff := overall_accumulated_damage st\<rparr>,
            \<lparr>row_frame = f, row_trillion = last_valid_jo st,
             row_hundred_million = last_valid_uk st,
             row_total = overall_accumulated_damage st,
             row_change = damage_change_of (previous_total_damage_for_diff st)
                            (overall_accumulated_damage st)\<rparr>,
            [ImagesNotFound])"
proof -
  have a: "\<not> (truthy (map_of tm f) \<and> truthy (map_of hm f))"
    using assms by (auto simp: truthy_def)
  have b: "\<not> (truthy (map_of [] f) \<and> truthy (map_of [] f))"
    by (simp add: truthy_def)
  show ?thesis
    unfolding loop_body_missing [OF a] loop_body_missing [OF b] by simp
qed

theorem single_image_frame_is_missing_witness:
  "(map_of gap_trillion 1 = None) \<noteq> (map_of gap_hundred_million 1 = None) \<and>
   loop_body read_off gap_trillion gap_hundred_million 1 initial_tracking =
     loop_body (\<lambda>p. ''9'') [] [] 1 initial_tracking \<and>
   loop_body read_off gap_trillion gap_hundred_million 1 initial_tracking =
     (initial_tracking\<lparr>previous_total_damage_for_diff :=
        overall_accumulated_damage initial_tracking\<rparr>,
      \<lparr>row_frame = 1, row_trillion = last_valid_jo initial_tracking,
        row_hundred_million = last_valid_uk initial_tracking,
        row_total = overall_accumulated_damage initial_tracking,
        row_change = damage_change_of (previous_total_damage_for_diff initial_tracking)
                       (overall_accumulated_damage initial_tracking)\<rparr>,
      [ImagesNotFound])"
proof -
  have a: "(map_of gap_trillion 1 = None) \<noteq> (map_of gap_hundred_million 1 = None)"
    by (simp add: gap_trillion_def gap_hundred_million_def)
  show ?thesis
    by (rule conjI [OF a single_image_frame_is_missing [OF a]])
qed

text \<open>
  Claim C10. In every state that iterating the loop body from the initial state reaches,
  the offset does not exceed the accumulated damage, and so it is after one more
  iteration. An iteration that announces a reset ends with the offset equal to the
  accumulated damage, and it never takes the rejecting branch. In the branch of a frame
  with both images the raw value plus the offset is at least the offset, and it is the
  new accumulated damage unless the frame is rejected. The states meant are those at the
  end of \<open>run_frames\<close> over any list of frames; by \<open>process_ocr_returns\<close> the loop of
  \<open>process_ocr\<close> is such a run, and by \<open>run_frames_append\<close> so is each of its prefixes.
\<close>

theorem reset_offset_bounded:
  assumes "run_frames ocr tm hm initial_tracking fs = (st, rows, out)"
    and "loop_body ocr tm hm f st = (st', row, evs)"
  shows "reset_offset st \<le> overall_accumulated_damage st \<and>
         reset_offset st' \<le> overall_accumulated_damage st' \<and>
         (ResetDetected \<in> set evs \<longrightarrow>
            reset_offset st' = overall_accumulated_damage st \<and>
            reset_offset st' = overall_accumulated_damage st' \<and>
            MaintainedPrevious \<notin> set evs) \<and>
         (truthy (map_of tm f) \<and> truthy (map_of hm f) \<longrightarrow>
            reset_offset st'
              \<le> raw_damage (get_number_from_ocr_text (ocr (the (map_of tm f))))
                   (get_number_from_ocr_text (ocr (the (map_of hm f)))) + reset_offset st' \<and>
            (MaintainedPrevious \<in> set evs \<or>
             overall_accumulated_damage st' =
               raw_damage (get_number_from_ocr_text (ocr (the (map_of tm f))))
                 (get_number_from_ocr_text (ocr (the (map_of hm f)))) + reset_offset st'))"
proof -
  let ?t = "get_number_from_ocr_text (ocr (the (map_of tm f)))"
  let ?h = "get_number_from_ocr_text (ocr (the (map_of hm f)))"
  have ok: "tracking_ok st"
    using run_frames_ok [OF assms(1) initial_ok] .
  have ok': "tracking_ok st'"
    using loop_body_ok [OF assms(2) ok] .
  have a: "reset_offset st \<le> overall_accumulated_damage st"
    using ok by (simp add: tracking_ok_def)
  have b: "reset_offset st' \<le> overall_accumulated_damage st'"
    using ok' by (simp add: tracking_ok_def)
  have c: "reset_offset st' = overall_accumulated_damage st \<and>
           reset_offset st' = overall_accumulated_damage st' \<and>
           MaintainedPrevious \<notin> set evs" if r: "ResetDetected \<in> set evs"
  proof -
    from loop_body_events [OF assms(2)] r obtain st1 res where
      p: "present_frame st ?t ?h = (st1, res, evs)"
      and e: "reset_offset st' = reset_offset st1"
         "overall_accumulated_damage st' = overall_accumulated_damage st1"
      by auto
    from present_frame_on_reset [OF p r] e show ?thesis by simp
  qed
  have d: "reset_offset st' \<le> raw_damage ?t ?h + reset_offset st' \<and>
           (MaintainedPrevious \<in> set evs \<or>
            overall_accumulated_damage st' = raw_damage ?t ?h + reset_offset st')"
    if t: "truthy (map_of tm f) \<and> truthy (map_of hm f)"
  proof -
    from loop_body_events [OF assms(2)] t obtain st1 res where
      p: "present_frame st ?t ?h = (st1, res, evs)"
      and e: "reset_offset st' = reset_offset st1"
         "overall_accumulated_damage st' = overall_accumulated_damage st1"
      by auto
    from present_frame_candidate [OF p] e raw_damage_nonneg [of ?t ?h]
    show ?thesis by auto
  qed
  from a b c d show ?thesis by blast
qed

theorem reset_offset_bounded_witness:
  "run_frames read_off zero_trillion zero_hundred_million initial_tracking [0, 1] =
     (after_peak, take 2 zero_rows, take 2 zero_events) \<and>
   loop_body read_off zero_trillion zero_hundred_million 2 after_peak =
     (after_reset, zero_rows ! 2, [ResetDetected, UpdatedOverall]) \<and>
   reset_offset after_peak \<le> overall_accumulated_damage after_peak \<and>
   reset_offset after_reset \<le> overall_accumulated_damage after_reset \<and>
   ResetDetected \<in> set [ResetDetected, UpdatedOverall] \<and>
   reset_offset after_reset = overall_accumulated_damage after_peak \<and>
   reset_offset after_reset = overall_accumulated_damage after_reset \<and>
   MaintainedPrevious \<notin> set [ResetDetected, UpdatedOverall] \<and>
   truthy (map_of zero_trillion 2) \<and> truthy (map_of zero_hundred_million 2) \<and>
   overall_accumulated_damage after_reset =
     raw_damage (get_number_from_ocr_text (read_off (the (map_of zero_trillion 2))))
       (get_number_from_ocr_text (read_off (the (map_of zero_hundred_million 2))))
     + reset_offset after_reset"
  using reset_offset_bounded [OF zero_prefix_run zero_reset_step] zero_prefix_run zero_reset_step
  by (simp add: truthy_def zero_trillion_def zero_hundred_million_def)

end
